theory Spec2Isabelle
  imports Main "HOL-Library.Sublist"
begin

section \<open>Python strings\<close>

text \<open>
  A Python \<open>str\<close> is a sequence of code points. The model takes the code points
  \<open>U+0000\<close> to \<open>U+00FF\<close>, one \<^typ>\<open>char\<close> each, so that a \<^typ>\<open>string\<close> is a
  Latin-1 \<open>str\<close>. On this range \<open>str.isspace\<close>, \<open>str.lower\<close>, \<open>str.strip\<close>,
  \<open>str.split\<close> and the substring test \<open>in\<close> are as follows.
\<close>

definition isspace :: "char \<Rightarrow> bool" where
  \<comment> \<open>the whitespace of \<open>str.strip()\<close> and \<open>str.split()\<close>: TAB, LF, VT, FF, CR,
      FS, GS, RS, US, SPACE, NEL, NBSP\<close>
  "isspace c = (of_char c \<in> {9, 10, 11, 12, 13, 28, 29, 30, 31, 32, 133, 160 :: nat})"

definition lower_char :: "char \<Rightarrow> char" where
  \<comment> \<open>\<open>A\<close> to \<open>Z\<close>, and the upper-case letters \<open>U+00C0\<close> to \<open>U+00DE\<close>
      (\<open>U+00D7\<close>, the multiplication sign, is not a letter)\<close>
  "lower_char c =
     (let n = (of_char c :: nat)
      in if (65 \<le> n \<and> n \<le> 90) \<or> (192 \<le> n \<and> n \<le> 222 \<and> n \<noteq> 215)
         then char_of (n + 32) else c)"

definition str_lower :: "string \<Rightarrow> string" where
  "str_lower s = map lower_char s"

definition str_strip :: "string \<Rightarrow> string" where
  "str_strip s = rev (dropWhile isspace (rev (dropWhile isspace s)))"

text \<open>
  \<open>s.split()\<close> with no argument: the maximal runs of non-whitespace, in order; no
  token is empty. \<open>cur\<close> is the token being read.
\<close>

fun split_from :: "string \<Rightarrow> string \<Rightarrow> string list" where
  "split_from cur [] = (if cur = [] then [] else [cur])"
| "split_from cur (c # cs) =
     (if isspace c
      then (if cur = [] then split_from [] cs else cur # split_from [] cs)
      else split_from (cur @ [c]) cs)"

definition str_split :: "string \<Rightarrow> string list" where
  "str_split s = split_from [] s"

text \<open>\<open>word in s\<close>: \<open>word\<close> occurs in \<open>s\<close> as a contiguous substring.\<close>

fun str_contains :: "string \<Rightarrow> string \<Rightarrow> bool" where
  "str_contains word [] = (word = [])"
| "str_contains word (c # cs) = (prefix word (c # cs) \<or> str_contains word cs)"

definition quoted :: "string \<Rightarrow> string" where
  \<comment> \<open>the \<open>'{...}'\<close> of the log messages' f-strings\<close>
  "quoted s = CHR 0x27 # s @ [CHR 0x27]"

section \<open>The interruption handler\<close>

datatype AgentState = SPEAKING | SILENT

fun state_value :: "AgentState \<Rightarrow> string" where
  "state_value SPEAKING = ''speaking''"
| "state_value SILENT = ''silent''"

text \<open>
  The fields of \<open>InterruptionHandler\<close>. \<open>ignore_words\<close> is a Python set that is only
  tested for membership; \<open>interrupt_words\<close> is a Python set that is iterated, so it is
  held as a list, in some order of enumeration (the results of interest do not depend on
  the order, see \<open>find_interrupt_word_iff\<close>). The \<open>asyncio.Lock\<close> of the class is never
  used by its methods and is left out.
\<close>

record InterruptionHandler =
  ignore_words :: "string set"
  interrupt_words :: "string list"
  agent_state :: AgentState
  pending_interruptions :: "string list"

text \<open>
  The module's logger is outside the handler: the methods run with the handler and
  the list of the calls made to the logger so far, and return both.
\<close>

datatype log_level = DEBUG | INFO

type_synonym log_call = "log_level \<times> string"

type_synonym world = "InterruptionHandler \<times> log_call list"

definition DEFAULT_IGNORE_WORDS :: "string list" where
  "DEFAULT_IGNORE_WORDS =
     [''yeah'', ''ok'', ''okay'', ''hmm'', ''uh-huh'', ''mhm'',
      ''right'', ''aha'', ''yep'', ''sure'', ''gotcha'']"

definition INTERRUPT_WORDS :: "string list" where
  "INTERRUPT_WORDS = [''wait'', ''stop'', ''no'', ''hold'', ''pause'', ''hold on'']"

text \<open>
  \<open>__init__(self, ignore_words=None)\<close>: \<open>set(ignore_words or [...])\<close> takes the
  default list when the argument is \<open>None\<close> and when it is the empty list, which is falsy
  too.
\<close>

definition init :: "string list option \<Rightarrow> InterruptionHandler" where
  "init ignore_words_arg =
     \<lparr> ignore_words =
         set (case ignore_words_arg of
                None \<Rightarrow> DEFAULT_IGNORE_WORDS
              | Some ws \<Rightarrow> if ws = [] then DEFAULT_IGNORE_WORDS else ws),
       interrupt_words = INTERRUPT_WORDS,
       agent_state = SILENT,
       pending_interruptions = [] \<rparr>"

fun set_state :: "AgentState \<Rightarrow> world \<Rightarrow> world" where
  "set_state state (self, logged) =
     (self\<lparr>agent_state := state\<rparr>,
      logged @ [(DEBUG, ''Agent state changed to: '' @ state_value state)])"

definition is_speaking :: "InterruptionHandler \<Rightarrow> bool" where
  "is_speaking self = (agent_state self = SPEAKING)"

text \<open>
  The argument of \<open>should_interrupt\<close> is annotated \<open>str\<close>; the callers may pass \<open>None\<close>
  as well. \<open>not user_input\<close> holds of \<open>None\<close> and of the empty string. \<open>.lower()\<close> is
  a method of \<open>str\<close> only: on \<open>None\<close> it raises \<open>AttributeError\<close>.
\<close>

datatype py_value = PyNone | PyStr string

datatype error = AttributeError

fun truthy :: "py_value \<Rightarrow> bool" where
  "truthy PyNone = False"
| "truthy (PyStr s) = (s \<noteq> [])"

fun py_lower :: "py_value \<Rightarrow> error + string" where
  "py_lower PyNone = Inl AttributeError"
| "py_lower (PyStr s) = Inr (str_lower s)"

fun py_repr :: "py_value \<Rightarrow> string" where
  \<comment> \<open>the value as an f-string formats it\<close>
  "py_repr PyNone = ''None''"
| "py_repr (PyStr s) = s"

text \<open>
  The loop over the command words, left at the first word found in the normalized
  input.
\<close>

fun find_interrupt_word :: "string list \<Rightarrow> string \<Rightarrow> string option" where
  "find_interrupt_word [] normalized_input = None"
| "find_interrupt_word (word # rest) normalized_input =
     (if str_contains word normalized_input then Some word
      else find_interrupt_word rest normalized_input)"

fun should_interrupt :: "py_value \<Rightarrow> world \<Rightarrow> (error + bool) \<times> world" where
  "should_interrupt user_input (self, logged) =
     (if \<not> truthy user_input then (Inr False, (self, logged))
      else
       (case py_lower user_input of
          Inl e \<Rightarrow> (Inl e, (self, logged))
        | Inr lowered \<Rightarrow>
           (let normalized_input = str_strip lowered;
                words = str_split normalized_input
            in
              if \<not> is_speaking self
              then (Inr True,
                    (self, logged @ [(DEBUG, ''Agent is silent, processing input: ''
                                             @ quoted (py_repr user_input))]))
              else
               (case find_interrupt_word (interrupt_words self) normalized_input of
                  Some word \<Rightarrow>
                    (Inr True,
                     (self, logged @ [(INFO, ''Interrupt command detected: '' @ quoted word
                                             @ '' in '' @ quoted (py_repr user_input))]))
                | None \<Rightarrow>
                   (let non_ignore_words = filter (\<lambda>w. w \<notin> ignore_words self) words
                    in
                      if non_ignore_words = []
                      then (Inr False,
                            (self, logged @ [(DEBUG, ''Ignoring filler input while speaking: ''
                                                     @ quoted (py_repr user_input))]))
                      else (Inr True,
                            (self, logged @ [(INFO, ''Valid interruption detected: ''
                                                    @ quoted (py_repr user_input))])))))))"

text \<open>
  The normalized form of an utterance, as \<open>should_interrupt\<close> computes it:
  \<open>user_input.lower().strip()\<close>.
\<close>

abbreviation normalized :: "string \<Rightarrow> string" where
  "normalized s \<equiv> str_strip (str_lower s)"

section \<open>Facts about the string operations and the command loop\<close>

text \<open>
  \<open>str_contains\<close> is the contiguous-substring relation, and the outcome of the loop
  over the command words depends only on the set of the words, not on the order in which
  Python enumerates it.
\<close>

lemma str_contains_iff_sublist: "str_contains word s \<longleftrightarrow> sublist word s"
  by (induction s) (simp_all add: sublist_Cons_right)

lemma str_contains_iff: "str_contains word s \<longleftrightarrow> (\<exists>before after. s = before @ word @ after)"
  by (simp add: str_contains_iff_sublist sublist_def)

lemma find_interrupt_word_None:
  "find_interrupt_word ws n = None \<longleftrightarrow> (\<forall>w\<in>set ws. \<not> str_contains w n)"
  by (induction ws) simp_all

lemma find_interrupt_word_Some:
  "find_interrupt_word ws n = Some w \<Longrightarrow> w \<in> set ws \<and> str_contains w n"
  by (induction ws) (auto split: if_splits)

lemma find_interrupt_word_iff:
  "(\<exists>w. find_interrupt_word ws n = Some w) \<longleftrightarrow> (\<exists>w\<in>set ws. str_contains w n)"
  using find_interrupt_word_None [of ws n] by (cases "find_interrupt_word ws n") auto

lemma find_interrupt_word_order:
  "set ws = set ws' \<Longrightarrow>
   (find_interrupt_word ws n = None) = (find_interrupt_word ws' n = None)"
  by (simp add: find_interrupt_word_None)

text \<open>The tokens of \<open>str_split\<close> are non-empty and hold no whitespace.\<close>

lemma split_from_tokens:
  "t \<in> set (split_from cur s) \<Longrightarrow> \<forall>c\<in>set cur. \<not> isspace c \<Longrightarrow>
   t \<noteq> [] \<and> (\<forall>c\<in>set t. \<not> isspace c)"
proof (induction s arbitrary: cur)
  case Nil
  then show ?case
    by (simp split: if_splits)
next
  case (Cons c cs)
  show ?case
  proof (cases "isspace c")
    case True
    with Cons.prems(1) have "t = cur \<and> cur \<noteq> [] \<or> t \<in> set (split_from [] cs)"
      by (simp split: if_splits)
    then show ?thesis
    proof
      assume "t = cur \<and> cur \<noteq> []"
      with Cons.prems(2) show ?thesis by simp
    next
      assume "t \<in> set (split_from [] cs)"
      then show ?thesis
        by (rule Cons.IH) simp
    qed
  next
    case False
    with Cons.prems(1) have "t \<in> set (split_from (cur @ [c]) cs)"
      by simp
    then show ?thesis
    proof (rule Cons.IH)
      from False Cons.prems(2) show "\<forall>x\<in>set (cur @ [c]). \<not> isspace x"
        by simp
    qed
  qed
qed

lemma str_split_tokens:
  "t \<in> set (str_split s) \<Longrightarrow> t \<noteq> [] \<and> (\<forall>c\<in>set t. \<not> isspace c)"
  using split_from_tokens [of t "[]" s] by (simp add: str_split_def)

lemma lower_char_isspace: "isspace c \<Longrightarrow> lower_char c = c"
  by (auto simp: isspace_def lower_char_def Let_def)

lemma normalized_blank:
  assumes blank: "\<forall>c\<in>set s. isspace c"
  shows "normalized s = []"
proof -
  from blank have low: "str_lower s = s"
    by (simp add: str_lower_def lower_char_isspace map_idI)
  from blank have drop: "dropWhile isspace s = []"
    by (simp add: dropWhile_eq_Nil_conv)
  show ?thesis
    by (simp add: str_strip_def low drop)
qed

lemma should_interrupt_falsy:
  "\<not> truthy user_input \<Longrightarrow> should_interrupt user_input (self, logged) = (Inr False, (self, logged))"
  by simp

lemma should_interrupt_silent:
  "s \<noteq> [] \<Longrightarrow> agent_state self \<noteq> SPEAKING \<Longrightarrow>
   fst (should_interrupt (PyStr s) (self, logged)) = Inr True"
  by (simp add: is_speaking_def Let_def)

lemma should_interrupt_speaking:
  "s \<noteq> [] \<Longrightarrow> agent_state self = SPEAKING \<Longrightarrow>
   fst (should_interrupt (PyStr s) (self, logged)) =
     Inr ((\<exists>w\<in>set (interrupt_words self). str_contains w (normalized s)) \<or>
          (\<exists>t\<in>set (str_split (normalized s)). t \<notin> ignore_words self))"
proof (cases "find_interrupt_word (interrupt_words self) (normalized s)")
  case None
  assume "s \<noteq> []" "agent_state self = SPEAKING"
  moreover from None have "\<forall>w\<in>set (interrupt_words self). \<not> str_contains w (normalized s)"
    by (simp add: find_interrupt_word_None)
  ultimately show ?thesis
    using None by (auto simp: is_speaking_def Let_def filter_empty_conv)
next
  case (Some word)
  assume "s \<noteq> []" "agent_state self = SPEAKING"
  moreover from Some have "word \<in> set (interrupt_words self)" "str_contains word (normalized s)"
    by (simp_all add: find_interrupt_word_Some)
  ultimately show ?thesis
    using Some by (auto simp: is_speaking_def Let_def)
qed

text \<open>
  From here on \<open>should_interrupt\<close> is used through the three lemmas above. The
  definitions below are unfolded to run the model on a concrete utterance.
\<close>

declare should_interrupt.simps [simp del]

lemma char_eq_char_of_iff: "c = char_of (n :: nat) \<longleftrightarrow> take_bit 8 n = of_char c"
  using char_of_eq_iff [of n c] by auto

lemmas evaluation =
  should_interrupt.simps init_def is_speaking_def INTERRUPT_WORDS_def DEFAULT_IGNORE_WORDS_def
  str_split_def str_strip_def str_lower_def lower_char_def isspace_def
  char_of_eq_iff char_eq_char_of_iff Let_def

lemma normalized_Nil: "normalized [] = []"
  by (simp add: str_strip_def str_lower_def)

lemma interrupt_word_not_in_empty:
  "word \<in> set INTERRUPT_WORDS \<Longrightarrow> \<not> str_contains word []"
  by (auto simp: INTERRUPT_WORDS_def)

section \<open>The classifier on empty, blank and command utterances\<close>

text \<open>
  In what follows \<open>decide(mode, s)\<close> of the specification is the first component of
  \<open>should_interrupt (PyStr s) w\<close> on a handler \<open>fst w\<close> whose \<open>agent_state\<close> is the
  mode; the command set is the one the constructor installs, in any order of enumeration.
\<close>

text \<open>
  Claim C1, as stated, says that the empty string and a whitespace-only string are
  never actionable in either mode. The test \<open>not user_input\<close> runs before the input is
  stripped, so while the agent is silent a string of three spaces is non-empty and is
  answered with true.
\<close>

theorem C1_counterexample_blank_while_silent:
  "agent_state (init None) = SILENT \<and>
   list_all isspace ''   '' \<and>
   fst (should_interrupt (PyStr ''   '') (init None, [])) = Inr True"
  by (simp add: evaluation)

text \<open>
  Claim C1, amended: the empty string is never actionable, whatever the mode, and
  while the agent is speaking a string that consists of whitespace only is not actionable
  either (its normalized form is empty: it holds no command word and no token).
\<close>

theorem C1_empty_and_blank_while_speaking:
  "fst (should_interrupt (PyStr []) w) = Inr False \<and>
   (agent_state (fst w) = SPEAKING \<longrightarrow>
    set (interrupt_words (fst w)) = set INTERRUPT_WORDS \<longrightarrow>
    (\<forall>c\<in>set s. isspace c) \<longrightarrow>
      fst (should_interrupt (PyStr s) w) = Inr False)"
proof (cases w)
  case (Pair self logged)
  have empty: "fst (should_interrupt (PyStr []) (self, logged)) = Inr False"
    by (simp add: should_interrupt_falsy)
  have blank: "fst (should_interrupt (PyStr s) (self, logged)) = Inr False"
    if speaking: "agent_state self = SPEAKING"
      and commands: "set (interrupt_words self) = set INTERRUPT_WORDS"
      and spaces: "\<forall>c\<in>set s. isspace c"
  proof (cases "s = []")
    case True
    with empty show ?thesis by simp
  next
    case False
    from spaces have n: "normalized s = []"
      by (rule normalized_blank)
    have "\<forall>word\<in>set INTERRUPT_WORDS. \<not> str_contains word []"
      using interrupt_word_not_in_empty by blast
    with False speaking commands n show ?thesis
      by (simp add: should_interrupt_speaking str_split_def)
  qed
  from Pair empty blank show ?thesis
    by simp
qed

theorem C1_witness:
  "fst (should_interrupt (PyStr '''') (set_state SPEAKING (init None, []))) = Inr False \<and>
   fst (should_interrupt (PyStr '''') (set_state SILENT (init None, []))) = Inr False \<and>
   agent_state (fst (set_state SPEAKING (init None, []))) = SPEAKING \<and>
   set (interrupt_words (fst (set_state SPEAKING (init None, [])))) = set INTERRUPT_WORDS \<and>
   list_all isspace ''   '' \<and>
   fst (should_interrupt (PyStr ''   '') (set_state SPEAKING (init None, []))) = Inr False"
  using C1_empty_and_blank_while_speaking [of "set_state SPEAKING (init None, [])" "''   ''"]
    C1_empty_and_blank_while_speaking [of "set_state SILENT (init None, [])" "''   ''"]
  by (simp add: evaluation)

text \<open>
  Claim C2: while the agent is speaking, an utterance whose normalized form contains a
  command word as a substring is actionable. Nothing is assumed of the ignore set or of
  the other tokens of the utterance: the command words win over any amount of filler.
\<close>

theorem C2_command_word_interrupts:
  assumes speaking: "agent_state (fst w) = SPEAKING"
    and commands: "set (interrupt_words (fst w)) = set INTERRUPT_WORDS"
    and word: "word \<in> set INTERRUPT_WORDS"
    and found: "str_contains word (normalized s)"
  shows "fst (should_interrupt (PyStr s) w) = Inr True"
proof (cases w)
  case (Pair self logged)
  from word found have "s \<noteq> []"
    using interrupt_word_not_in_empty normalized_Nil by metis
  moreover from word found commands Pair
  have "\<exists>c\<in>set (interrupt_words self). str_contains c (normalized s)"
    by auto
  ultimately show ?thesis
    using speaking Pair by (simp add: should_interrupt_speaking)
qed

theorem C2_witness:
  "agent_state (fst (set_state SPEAKING (init None, []))) = SPEAKING \<and>
   set (interrupt_words (fst (set_state SPEAKING (init None, [])))) = set INTERRUPT_WORDS \<and>
   ''wait'' \<in> set INTERRUPT_WORDS \<and>
   str_contains ''wait'' (normalized ''Yeah okay WAIT'') \<and>
   list_all (\<lambda>t. t = ''wait'' \<or> t \<in> ignore_words (init None))
     (str_split (normalized ''Yeah okay WAIT'')) \<and>
   fst (should_interrupt (PyStr ''Yeah okay WAIT'') (set_state SPEAKING (init None, [])))
     = Inr True"
  using C2_command_word_interrupts
    [of "set_state SPEAKING (init None, [])" "''wait''" "''Yeah okay WAIT''"]
  by (simp add: evaluation)

section \<open>The classifier while the agent is speaking, and while it is silent\<close>

text \<open>
  Claim C3, as stated, holds for every configuration of ignore words. A configuration
  may list a command word: with the ignore words \<open>["no"]\<close> the only token of the
  utterance \<open>no\<close> is an ignore word, and the command loop, which runs first, answers
  true.
\<close>

theorem C3_counterexample_command_in_ignore_set:
  "agent_state (fst (set_state SPEAKING (init (Some [''no'']), []))) = SPEAKING \<and>
   str_split (normalized ''no'') = [''no''] \<and>
   ''no'' \<in> ignore_words (fst (set_state SPEAKING (init (Some [''no'']), []))) \<and>
   fst (should_interrupt (PyStr ''no'') (set_state SPEAKING (init (Some [''no'']), [])))
     = Inr True"
  by (simp add: evaluation)

text \<open>
  Claim C3, amended: for every configuration of ignore words, while the agent is
  speaking, an utterance whose normalized form contains no command word as a substring
  and whose tokens are all ignore words is not actionable.
\<close>

theorem C3_only_ignore_words_no_command:
  assumes speaking: "agent_state (fst w) = SPEAKING"
    and commands: "set (interrupt_words (fst w)) = set INTERRUPT_WORDS"
    and no_command: "\<forall>word\<in>set INTERRUPT_WORDS. \<not> str_contains word (normalized s)"
    and fillers: "\<forall>t\<in>set (str_split (normalized s)). t \<in> ignore_words (fst w)"
  shows "fst (should_interrupt (PyStr s) w) = Inr False"
proof (cases w)
  case (Pair self logged)
  show ?thesis
  proof (cases "s = []")
    case True
    with Pair show ?thesis
      by (simp add: should_interrupt_falsy)
  next
    case False
    with Pair speaking commands no_command fillers show ?thesis
      by (simp add: should_interrupt_speaking)
  qed
qed

theorem C3_witness:
  "agent_state (fst (set_state SPEAKING (init None, []))) = SPEAKING \<and>
   set (interrupt_words (fst (set_state SPEAKING (init None, [])))) = set INTERRUPT_WORDS \<and>
   list_all (\<lambda>word. \<not> str_contains word (normalized ''Hmm  RIGHT uh-huh '')) INTERRUPT_WORDS \<and>
   str_split (normalized ''Hmm  RIGHT uh-huh '') = [''hmm'', ''right'', ''uh-huh''] \<and>
   list_all (\<lambda>t. t \<in> ignore_words (fst (set_state SPEAKING (init None, []))))
     (str_split (normalized ''Hmm  RIGHT uh-huh '')) \<and>
   fst (should_interrupt (PyStr ''Hmm  RIGHT uh-huh '') (set_state SPEAKING (init None, [])))
     = Inr False"
  using C3_only_ignore_words_no_command
    [of "set_state SPEAKING (init None, [])" "''Hmm  RIGHT uh-huh ''"]
  by (simp add: evaluation)

text \<open>
  Claim C4: while the agent is silent every non-empty string is actionable, and the
  answer is the same whatever the ignore set and the command set of the handler are:
  neither is consulted.
\<close>

theorem C4_silent_non_empty:
  assumes silent: "agent_state (fst w) = SILENT"
    and non_empty: "s \<noteq> []"
  shows "fst (should_interrupt (PyStr s)
               ((fst w)\<lparr>ignore_words := ignored, interrupt_words := commands\<rparr>, snd w))
         = Inr True"
  using assms by (simp add: should_interrupt_silent)

theorem C4_witness:
  "agent_state (fst (set_state SILENT (init None, []))) = SILENT \<and>
   ''yeah'' \<noteq> [] \<and> ''   '' \<noteq> [] \<and>
   fst (should_interrupt (PyStr ''yeah'') (set_state SILENT (init None, []))) = Inr True \<and>
   fst (should_interrupt (PyStr ''   '')
         ((fst (set_state SILENT (init None, [])))
            \<lparr>ignore_words := {}, interrupt_words := []\<rparr>,
          snd (set_state SILENT (init None, [])))) = Inr True"
  using C4_silent_non_empty
    [where w = "set_state SILENT (init None, [])" and s = "''yeah''"
       and ignored = "set DEFAULT_IGNORE_WORDS" and commands = INTERRUPT_WORDS]
    C4_silent_non_empty
    [where w = "set_state SILENT (init None, [])" and s = "''   ''"
       and ignored = "{}" and commands = "[]"]
  by (simp add: evaluation)

text \<open>
  Claim C5: while the agent is speaking, an utterance whose normalized form contains no
  command word as a substring and has a token outside the ignore set is actionable.
\<close>

theorem C5_substantive_token_interrupts:
  assumes speaking: "agent_state (fst w) = SPEAKING"
    and commands: "set (interrupt_words (fst w)) = set INTERRUPT_WORDS"
    and no_command: "\<forall>word\<in>set INTERRUPT_WORDS. \<not> str_contains word (normalized s)"
    and token: "t \<in> set (str_split (normalized s))"
    and substantive: "t \<notin> ignore_words (fst w)"
  shows "fst (should_interrupt (PyStr s) w) = Inr True"
proof (cases w)
  case (Pair self logged)
  from token have "s \<noteq> []"
    by (auto simp: str_split_def normalized_Nil)
  moreover from token substantive Pair
  have "\<exists>t\<in>set (str_split (normalized s)). t \<notin> ignore_words self"
    by auto
  ultimately show ?thesis
    using Pair speaking by (simp add: should_interrupt_speaking)
qed

theorem C5_witness:
  "agent_state (fst (set_state SPEAKING (init None, []))) = SPEAKING \<and>
   set (interrupt_words (fst (set_state SPEAKING (init None, [])))) = set INTERRUPT_WORDS \<and>
   list_all (\<lambda>word. \<not> str_contains word (normalized ''Yeah that's interesting''))
     INTERRUPT_WORDS \<and>
   ''interesting'' \<in> set (str_split (normalized ''Yeah that's interesting'')) \<and>
   ''interesting'' \<notin> ignore_words (fst (set_state SPEAKING (init None, []))) \<and>
   fst (should_interrupt (PyStr ''Yeah that's interesting'')
         (set_state SPEAKING (init None, []))) = Inr True"
  using C5_substantive_token_interrupts
    [of "set_state SPEAKING (init None, [])" "''Yeah that's interesting''" "''interesting''"]
  by (simp add: evaluation)

section \<open>The configured ignore words\<close>

text \<open>
  The utterance is lowercased before anything is matched, so its case never matters,
  and a call only appends to the log.
\<close>

lemma should_interrupt_log_extends:
  "prefix (snd w) (snd (snd (should_interrupt user_input w)))"
  by (cases w) (simp add: should_interrupt.simps Let_def split: sum.splits option.splits)

lemma should_interrupt_str_lower:
  assumes "str_lower s = str_lower s'"
  shows "fst (should_interrupt (PyStr s) w) = fst (should_interrupt (PyStr s') w)"
proof -
  from assms have "length (str_lower s) = length (str_lower s')"
    by simp
  then have "length s = length s'"
    by (simp add: str_lower_def)
  then have "s = [] \<longleftrightarrow> s' = []"
    by (cases s; cases s') simp_all
  with assms show ?thesis
    by (cases w) (simp add: should_interrupt.simps Let_def split: sum.splits option.splits)
qed

text \<open>
  The tokens of a normalized utterance are made of lowercased characters, so a
  configured word with an upper-case letter, such as \<open>Yeah\<close>, is never one of them.
\<close>

lemma lower_char_not_upper_Y: "lower_char c \<noteq> CHR ''Y''"
proof -
  have bound: "(of_char c :: nat) < 256"
    by simp
  have "c = CHR ''Y'' \<longleftrightarrow> (of_char c :: nat) = 89"
    using of_char_eq_iff [of c "CHR ''Y''", where ?'a = nat] by simp
  with bound show ?thesis
    by (auto simp: lower_char_def Let_def char_of_eq_iff take_bit_eq_mod)
qed

lemma split_from_chars:
  "t \<in> set (split_from cur s) \<Longrightarrow> set t \<subseteq> set cur \<union> set s"
proof (induction s arbitrary: cur)
  case Nil
  then show ?case
    by (simp split: if_splits)
next
  case (Cons c cs)
  show ?case
  proof (cases "isspace c")
    case True
    with Cons.prems have "t = cur \<or> t \<in> set (split_from [] cs)"
      by (simp split: if_splits)
    then show ?thesis
      using Cons.IH [of "[]"] by auto
  next
    case False
    with Cons.prems have "t \<in> set (split_from (cur @ [c]) cs)"
      by simp
    then show ?thesis
      using Cons.IH [of "cur @ [c]"] by auto
  qed
qed

lemma token_chars_lowered:
  assumes "t \<in> set (str_split (normalized s))"
  shows "set t \<subseteq> lower_char ` set s"
proof -
  from assms have "set t \<subseteq> set (normalized s)"
    using split_from_chars [of t "[]" "normalized s"] by (simp add: str_split_def)
  also have "\<dots> \<subseteq> set (str_lower s)"
    by (auto simp: str_strip_def dest!: set_dropWhileD)
  finally show ?thesis
    by (simp add: str_lower_def)
qed

lemma mixed_case_word_is_no_token: "''Yeah'' \<notin> set (str_split (normalized s))"
proof
  assume "''Yeah'' \<in> set (str_split (normalized s))"
  then have "set ''Yeah'' \<subseteq> lower_char ` set s"
    by (rule token_chars_lowered)
  then have "CHR ''Y'' \<in> lower_char ` set s"
    by simp
  then obtain c where "lower_char c = CHR ''Y''"
    by auto
  then show False
    by (simp add: lower_char_not_upper_Y)
qed

text \<open>
  Claim C6: every string of the handler's ignore set is lowercase, the constructor
  lowercasing the configured words, so that ignore-word matching is case-insensitive for
  a custom configuration as for the default one. The code lowercases the utterance and
  not the configuration: the constructor builds the set from the list as it is.
  Configured with \<open>["Yeah"]\<close>, the set holds \<open>Yeah\<close>, which is not lowercase, and
  while the agent is speaking neither \<open>Yeah\<close> nor \<open>yeah\<close> is suppressed, although
  \<open>Yeah\<close> is suppressed when \<open>yeah\<close> is configured or the default words apply. The
  configured word has no effect on any utterance: the handler answers as one with an empty
  ignore set does.
\<close>

theorem C6_configured_mixed_case_word_is_dead:
  "''Yeah'' \<in> ignore_words (init (Some [''Yeah''])) \<and>
   str_lower ''Yeah'' \<noteq> ''Yeah'' \<and>
   fst (should_interrupt (PyStr ''Yeah'') (set_state SPEAKING (init (Some [''Yeah'']), [])))
     = Inr True \<and>
   fst (should_interrupt (PyStr ''yeah'') (set_state SPEAKING (init (Some [''Yeah'']), [])))
     = Inr True \<and>
   fst (should_interrupt (PyStr ''Yeah'') (set_state SPEAKING (init (Some [''yeah'']), [])))
     = Inr False \<and>
   fst (should_interrupt (PyStr ''Yeah'') (set_state SPEAKING (init None, [])))
     = Inr False \<and>
   fst (should_interrupt (PyStr s) (set_state SPEAKING (init (Some [''Yeah'']), logged)))
     = fst (should_interrupt (PyStr s)
              (set_state SPEAKING ((init (Some [''Yeah'']))\<lparr>ignore_words := {}\<rparr>, logged)))"
proof -
  have at_input:
    "''Yeah'' \<in> ignore_words (init (Some [''Yeah''])) \<and>
     str_lower ''Yeah'' \<noteq> ''Yeah'' \<and>
     fst (should_interrupt (PyStr ''Yeah'') (set_state SPEAKING (init (Some [''Yeah'']), [])))
       = Inr True \<and>
     fst (should_interrupt (PyStr ''yeah'') (set_state SPEAKING (init (Some [''Yeah'']), [])))
       = Inr True \<and>
     fst (should_interrupt (PyStr ''Yeah'') (set_state SPEAKING (init (Some [''yeah'']), [])))
       = Inr False \<and>
     fst (should_interrupt (PyStr ''Yeah'') (set_state SPEAKING (init None, [])))
       = Inr False"
    by (simp add: evaluation)
  have dead:
    "fst (should_interrupt (PyStr s) (set_state SPEAKING (init (Some [''Yeah'']), logged)))
       = fst (should_interrupt (PyStr s)
                (set_state SPEAKING ((init (Some [''Yeah'']))\<lparr>ignore_words := {}\<rparr>, logged)))"
  proof (cases "s = []")
    case True
    then show ?thesis
      by (simp add: should_interrupt_falsy)
  next
    case False
    have "t \<noteq> ''Yeah''" if "t \<in> set (str_split (normalized s))" for t
      using that mixed_case_word_is_no_token [of s] by auto
    with False show ?thesis
      by (auto simp: should_interrupt_speaking init_def)
  qed
  from at_input dead show ?thesis
    by simp
qed

section \<open>Totality and frame of the classifier\<close>

text \<open>
  Claim C7: for every mode and every input, \<open>None\<close>, the empty string and
  whitespace-only strings included, \<open>should_interrupt\<close> returns a boolean: the
  \<open>AttributeError\<close> of \<open>None.lower()\<close> is never reached, since \<open>not user_input\<close>
  returns first.
\<close>

theorem C7_always_a_boolean:
  "\<exists>b. fst (should_interrupt user_input w) = Inr b"
proof (cases w)
  case (Pair self logged)
  show ?thesis
  proof (cases "truthy user_input")
    case False
    with Pair have "fst (should_interrupt user_input w) = Inr False"
      by (simp add: should_interrupt_falsy)
    then show ?thesis ..
  next
    case True
    then obtain s where s: "user_input = PyStr s" "s \<noteq> []"
      by (cases user_input) simp_all
    show ?thesis
    proof (cases "agent_state self")
      case SPEAKING
      with s Pair show ?thesis
        by (simp add: should_interrupt_speaking)
    next
      case SILENT
      with s Pair have "fst (should_interrupt user_input w) = Inr True"
        by (simp add: should_interrupt_silent)
      then show ?thesis ..
    qed
  qed
qed

theorem C7_witness:
  "fst (should_interrupt PyNone (set_state SPEAKING (init None, []))) = Inr False \<and>
   fst (should_interrupt PyNone (init None, [])) = Inr False \<and>
   (\<exists>b. fst (should_interrupt PyNone (set_state SPEAKING (init None, []))) = Inr b) \<and>
   (\<exists>b. fst (should_interrupt (PyStr ''   '') (init None, [])) = Inr b)"
  using C7_always_a_boolean [of PyNone "set_state SPEAKING (init None, [])"]
    C7_always_a_boolean [of "PyStr ''   ''" "(init None, [])"]
  by (simp add: evaluation)

text \<open>
  Claim C8: a call of \<open>should_interrupt\<close> leaves the handler as it was, for every
  handler and every input: its mode, its ignore set, its command set and its pending
  interruptions are those it had before the call.
\<close>

theorem C8_handler_unchanged:
  "fst (snd (should_interrupt user_input w)) = fst w"
  by (cases w) (simp add: should_interrupt.simps Let_def split: sum.splits option.splits)

theorem C8_witness:
  "fst (snd (should_interrupt (PyStr ''please wait'') (set_state SPEAKING (init None, []))))
     = fst (set_state SPEAKING (init None, [])) \<and>
   agent_state (fst (snd (should_interrupt (PyStr ''please wait'')
                            (set_state SPEAKING (init None, []))))) = SPEAKING \<and>
   ignore_words (fst (snd (should_interrupt (PyStr ''please wait'')
                             (set_state SPEAKING (init None, []))))) = set DEFAULT_IGNORE_WORDS \<and>
   interrupt_words (fst (snd (should_interrupt (PyStr ''please wait'')
                                (set_state SPEAKING (init None, []))))) = INTERRUPT_WORDS"
  using C8_handler_unchanged [of "PyStr ''please wait''" "set_state SPEAKING (init None, [])"]
  by (simp add: init_def)

section \<open>The state tracker and the constructor\<close>

text \<open>
  Claim C9: a freshly constructed handler is silent, so \<open>is_speaking\<close> is false, and
  after \<open>set_state(SPEAKING)\<close> then \<open>set_state(SILENT)\<close> it is false again: the later
  write replaces the earlier one, which did set the mode to speaking.
\<close>

theorem C9_default_silent_and_round_trip:
  "agent_state (init ignore_words_arg) = SILENT \<and>
   \<not> is_speaking (init ignore_words_arg) \<and>
   is_speaking (fst (set_state SPEAKING w)) \<and>
   \<not> is_speaking (fst (set_state SILENT (set_state SPEAKING w)))"
  by (cases w) (simp add: init_def is_speaking_def)

theorem C9_witness:
  "\<not> is_speaking (init None) \<and>
   is_speaking (fst (set_state SPEAKING (init None, []))) \<and>
   \<not> is_speaking (fst (set_state SILENT (set_state SPEAKING (init None, []))))"
  using C9_default_silent_and_round_trip [of None "(init None, [])"]
  by simp

text \<open>
  Claim C10: constructing the handler with the empty list gives the same handler as
  omitting the argument, with the default ignore set; no argument of the constructor
  gives an empty ignore set.
\<close>

theorem C10_empty_list_is_default:
  "init (Some []) = init None \<and>
   ignore_words (init (Some [])) = set DEFAULT_IGNORE_WORDS \<and>
   ignore_words (init ignore_words_arg) \<noteq> {}"
  by (simp add: init_def DEFAULT_IGNORE_WORDS_def split: option.splits)

theorem C10_witness:
  "init (Some []) = init None \<and>
   ignore_words (init (Some [])) = set DEFAULT_IGNORE_WORDS \<and>
   ignore_words (init (Some [])) \<noteq> {} \<and>
   fst (should_interrupt (PyStr ''yeah'') (set_state SPEAKING (init (Some []), [])))
     = Inr False"
  using C10_empty_list_is_default [of "Some []"]
  by (simp add: evaluation)

end
